theory Spec2Isabelle
  imports Main "HOL-Library.Sublist"
begin

section \<open>Runtime events\<close>

text \<open>
  The dashboard receives event objects of the agent runtime. The graph view reads two
  attributes of an event: \<open>event.type\<close>, a member of the enumeration \<open>EventType\<close>, and
  \<open>event.data\<close>, a dictionary. The enumeration is declared in
  \<open>framework.runtime.event_bus\<close>; the dashboard names four of its members, every other
  member is \<open>OTHER\<close> here (tagged with some label that tells such members apart).
  Dictionary values are strings: node identifiers and error messages.
\<close>

datatype event_type =
    NODE_STARTED
  | NODE_COMPLETED
  | EXECUTION_COMPLETED
  | EXECUTION_FAILED
  | OTHER string

record event =
  type :: event_type
  data :: "string \<rightharpoonup> string"

text \<open>
  Python's truth test on the result of \<open>event.data.get("node_id")\<close>: \<open>None\<close> (the key
  is missing) and the empty string are both false.
\<close>

definition truthy :: "string option \<Rightarrow> bool" where
  "truthy v = (case v of None \<Rightarrow> False | Some s \<Rightarrow> s \<noteq> [])"

section \<open>The graph overview widget (widgets/graph\_view.py)\<close>

subsection \<open>The runtime as the widget reads it\<close>

record entry_point =
  ep_name :: string
  ep_entry_node :: string

record node =
  node_id :: string
  node_type :: "string option"  \<comment> \<open>\<open>None\<close>: the node object has no attribute \<open>type\<close>\<close>

record graph =
  graph_id :: string
  graph_entry_node :: string
  nodes :: "node list"
  terminal_nodes :: "string list"

record agent_runtime =
  graph :: graph
  goal_description :: string
  get_entry_points :: "entry_point list"

subsection \<open>What the widget writes\<close>

text \<open>
  The widget writes marked-up lines to a \<open>RichLog\<close>. One constructor stands for each
  format string of the source and carries the values interpolated into it:
  \<^item> \<open>Header\<close>: \<^verbatim>\<open>[bold cyan]Agent Graph Structure[/bold cyan]\<close>
  \<^item> \<open>GraphId i\<close>: \<^verbatim>\<open>[dim]Graph ID:[/dim] {i}\<close>
  \<^item> \<open>Goal d\<close>: \<^verbatim>\<open>[dim]Goal:[/dim] {d}...\<close>
  \<^item> \<open>Blank\<close>: the empty line
  \<^item> \<open>EntryPointsHeader\<close>: \<^verbatim>\<open>[bold]Entry Points:[/bold]\<close>
  \<^item> \<open>EntryPointLine n e\<close>: the bullet line of entry point \<open>n\<close> leading to node \<open>e\<close>
  \<^item> \<open>EntryNodeLine e\<close>: \<^verbatim>\<open>[bold]Entry Node:[/bold] [cyan]{e}[/cyan]\<close>
  \<^item> \<open>NodesHeader k\<close>: \<^verbatim>\<open>[bold]Nodes ({k}):[/bold]\<close>
  \<^item> \<open>ActiveNodeLine i t\<close>: the highlighted line of the active node \<open>i\<close> of type \<open>t\<close>
  \<^item> \<open>VisitedNodeLine i t\<close>: the ticked, dimmed line of a node on the path
  \<^item> \<open>PlainNodeLine i t\<close>: the bullet line of any other node
  \<^item> \<open>TerminalNodesHeader\<close>: \<^verbatim>\<open>[bold]Terminal Nodes:[/bold]\<close>
  \<^item> \<open>TerminalNodeLine i\<close>: \<^verbatim>\<open>[yellow]{i}[/yellow]\<close> after a bullet
  \<^item> \<open>CurrentlyExecuting i\<close>: \<^verbatim>\<open>[bold green]Currently Executing:[/bold green] {i}\<close>
  \<^item> \<open>PathLine p\<close>: \<^verbatim>\<open>[dim]Path:[/dim]\<close> and the entries of \<open>p\<close> joined by arrows
  \<^item> \<open>ExecutionComplete\<close>: \<^verbatim>\<open>[bold green]Execution Complete![/bold green]\<close> after a tick
  \<^item> \<open>ExecutionFailedLine e\<close>: \<^verbatim>\<open>[bold red]Execution Failed:[/bold red] {e}\<close> after a cross
\<close>

datatype line =
    Header
  | GraphId string
  | Goal string
  | Blank
  | EntryPointsHeader
  | EntryPointLine string string
  | EntryNodeLine string
  | NodesHeader nat
  | ActiveNodeLine string string
  | VisitedNodeLine string string
  | PlainNodeLine string string
  | TerminalNodesHeader
  | TerminalNodeLine string
  | CurrentlyExecuting string
  | PathLine "string list"
  | ExecutionComplete
  | ExecutionFailedLine string

subsection \<open>The widget\<close>

text \<open>
  The widget's attributes, and \<open>display\<close>: the content of its \<open>RichLog\<close>
  (\<open>#graph-display\<close>), which the toolkit owns. Looking the \<open>RichLog\<close> up is taken to
  succeed: the widget tree belongs to the toolkit.
\<close>

record graph_overview =
  runtime :: agent_runtime
  active_node :: "string option"
  execution_path :: "string list"
  display :: "line list"

definition GraphOverview_init :: "agent_runtime \<Rightarrow> graph_overview" where
  "GraphOverview_init rt =
     \<lparr>runtime = rt, active_node = None, execution_path = [], display = []\<rparr>"

text \<open>One line per node of the graph, inside \<open>_display_graph\<close>.\<close>

definition node_line :: "graph_overview \<Rightarrow> node \<Rightarrow> line" where
  "node_line self n =
     (let t = (case node_type n of Some t \<Rightarrow> t | None \<Rightarrow> ''unknown'') in
      if active_node self = Some (node_id n) then ActiveNodeLine (node_id n) t
      else if node_id n \<in> set (execution_path self) then VisitedNodeLine (node_id n) t
      else PlainNodeLine (node_id n) t)"

text \<open>
  \<open>_display_graph\<close> clears the display and writes the graph again. The path line shows
  the last five entries (\<open>execution_path[-5:]\<close>); the stored path is not touched.
\<close>

definition display_graph :: "graph_overview \<Rightarrow> graph_overview" where
  "display_graph self =
     (let g = graph (runtime self);
          head_lines =
            [Header, GraphId (graph_id g), Goal (take 50 (goal_description (runtime self))),
             Blank];
          entry_points = get_entry_points (runtime self);
          entry_lines =
            (if entry_points \<noteq> []
             then EntryPointsHeader #
                  map (\<lambda>ep. EntryPointLine (ep_name ep) (ep_entry_node ep)) entry_points
             else [EntryNodeLine (graph_entry_node g)]);
          node_lines = NodesHeader (length (nodes g)) # map (node_line self) (nodes g);
          terminal_lines =
            (if terminal_nodes g \<noteq> []
             then TerminalNodesHeader # map TerminalNodeLine (terminal_nodes g)
             else []);
          status_lines =
            (case active_node self of
               Some a \<Rightarrow> if a \<noteq> [] then [Blank, CurrentlyExecuting a] else []
             | None \<Rightarrow> []);
          path_lines =
            (if execution_path self \<noteq> []
             then [PathLine (drop (length (execution_path self) - 5) (execution_path self))]
             else [])
      in self\<lparr>display :=
           head_lines @ entry_lines @ [Blank] @ node_lines @ [Blank] @ terminal_lines @
           status_lines @ path_lines\<rparr>)"

definition GraphOverview_on_mount :: "graph_overview \<Rightarrow> graph_overview" where
  "GraphOverview_on_mount self = display_graph self"

definition update_active_node :: "graph_overview \<Rightarrow> string \<Rightarrow> graph_overview" where
  "update_active_node self n =
     (let self1 = self\<lparr>active_node := Some n\<rparr>;
          self2 =
            (if n \<notin> set (execution_path self1)
             then self1\<lparr>execution_path := execution_path self1 @ [n]\<rparr>
             else self1)
      in display_graph self2)"

text \<open>
  \<open>update_execution\<close>: the state machine. The branches are the source's, in its order;
  an event of any other type falls through all four and changes nothing.
\<close>

definition update_execution :: "graph_overview \<Rightarrow> event \<Rightarrow> graph_overview" where
  "update_execution self event =
     (if type event = NODE_STARTED then
        (let n = data event ''node_id'' in
         if truthy n then update_active_node self (the n) else self)
      else if type event = NODE_COMPLETED then
        (let n = data event ''node_id'' in
         if truthy n \<and> n = active_node self
         then display_graph (self\<lparr>active_node := None\<rparr>)
         else self)
      else if type event = EXECUTION_COMPLETED then
        self\<lparr>display := display self @ [Blank, ExecutionComplete], active_node := None\<rparr>
      else if type event = EXECUTION_FAILED then
        (let error = (case data event ''error'' of Some e \<Rightarrow> e | None \<Rightarrow> ''Unknown error'')
         in self\<lparr>display := display self @ [Blank, ExecutionFailedLine error],
                 active_node := None\<rparr>)
      else self)"

text \<open>Events applied in order, as the UI thread receives them.\<close>

definition apply_events :: "graph_overview \<Rightarrow> event list \<Rightarrow> graph_overview" where
  "apply_events self events = foldl update_execution self events"

text \<open>
  The runtime's events as the specification names them, written as the objects the
  widget receives.
\<close>

definition NodeStarted :: "string \<Rightarrow> event" where
  "NodeStarted n = \<lparr>type = NODE_STARTED, data = [''node_id'' \<mapsto> n]\<rparr>"

definition NodeCompleted :: "string \<Rightarrow> event" where
  "NodeCompleted n = \<lparr>type = NODE_COMPLETED, data = [''node_id'' \<mapsto> n]\<rparr>"

definition ExecutionCompleted :: event where
  "ExecutionCompleted = \<lparr>type = EXECUTION_COMPLETED, data = Map.empty\<rparr>"

definition ExecutionFailed :: "string \<Rightarrow> event" where
  "ExecutionFailed error = \<lparr>type = EXECUTION_FAILED, data = [''error'' \<mapsto> error]\<rparr>"

text \<open>
  The widget has no attribute for the outcome of an execution: \<open>update_execution\<close>
  writes the outcome on the display. \<open>terminal_status\<close> reads it back from the last
  line the display holds.
\<close>

datatype terminal = ok | failed string

definition terminal_status :: "graph_overview \<Rightarrow> terminal option" where
  "terminal_status self =
     (case rev (display self) of
        ExecutionComplete # _ \<Rightarrow> Some ok
      | ExecutionFailedLine e # _ \<Rightarrow> Some (failed e)
      | _ \<Rightarrow> None)"

text \<open>A small runtime to evaluate the widget on: two nodes, the second one terminal.\<close>

definition demo_runtime :: agent_runtime where
  "demo_runtime =
     \<lparr>graph = \<lparr>graph_id = ''g'', graph_entry_node = ''n1'',
               nodes = [\<lparr>node_id = ''n1'', node_type = Some ''llm''\<rparr>,
                        \<lparr>node_id = ''n2'', node_type = None\<rparr>],
               terminal_nodes = [''n2'']\<rparr>,
      goal_description = ''demo'', get_entry_points = []\<rparr>"

section \<open>The application (app.py)\<close>

subsection \<open>The log pane (widgets/log\_pane.py)\<close>

text \<open>
  \<open>main_log\<close> is the content of the pane's \<open>RichLog\<close>. \<open>write_log\<close> returns without
  writing while the pane or its \<open>RichLog\<close> is not mounted.
\<close>

record log_pane =
  is_mounted :: bool
  log_is_mounted :: bool
  main_log :: "string list"

definition write_log :: "log_pane \<Rightarrow> string \<Rightarrow> log_pane" where
  "write_log self message =
     (if \<not> is_mounted self then self
      else if \<not> log_is_mounted self then self
      else self\<lparr>main_log := main_log self @ [message]\<rparr>)"

subsection \<open>Log records, the queue and the root logger\<close>

text \<open>
  A log record as the relay reads it: the logger's name, the numeric level, and
  \<open>message\<close>, the text \<open>logging.Formatter().format(record)\<close> yields for it (the
  default format is the message alone).
\<close>

record log_record =
  name :: string
  levelno :: nat
  message :: string

definition INFO :: nat where
  "INFO = 20"

definition CRITICAL :: nat where
  "CRITICAL = 50"

text \<open>
  Python's \<open>queue.Queue(maxsize)\<close>: first in, first out; \<open>maxsize = 0\<close> means no bound.
  \<open>put_nowait\<close> raises \<open>Full\<close> (\<open>None\<close> here) on a full queue, \<open>get_nowait\<close> raises
  \<open>Empty\<close> on an empty one.
\<close>

record queue =
  maxsize :: nat
  items :: "log_record list"

definition Queue :: "nat \<Rightarrow> queue" where
  "Queue m = \<lparr>maxsize = m, items = []\<rparr>"

definition full :: "queue \<Rightarrow> bool" where
  "full q = (0 < maxsize q \<and> maxsize q \<le> length (items q))"

definition put_nowait :: "queue \<Rightarrow> log_record \<Rightarrow> queue option" where
  "put_nowait q r = (if full q then None else Some (q\<lparr>items := items q @ [r]\<rparr>))"

definition get_nowait :: "queue \<Rightarrow> (log_record \<times> queue) option" where
  "get_nowait q = (case items q of [] \<Rightarrow> None | r # rest \<Rightarrow> Some (r, q\<lparr>items := rest\<rparr>))"

definition NOTSET :: nat where
  "NOTSET = 0"

text \<open>
  Handlers are objects, and Python compares them by identity. \<open>QueueHandler i l\<close> is
  the queue handler object number \<open>i\<close> of the process, at level \<open>l\<close>; each call of
  \<open>_setup_logging_queue\<close> makes a new one. \<open>OtherHandler k\<close> is any other handler
  object, number \<open>k\<close> among those.
\<close>

datatype handler = OtherHandler nat | QueueHandler nat nat

text \<open>
  The process-wide state the application changes: the root logger's handlers and
  level, the level and propagation flag of the logger \<open>LiteLLM\<close>, and the number of
  queue handler objects made so far, which numbers the next one. Every other logger
  is as Python creates it: level \<open>NOTSET\<close>, propagating, and with no handler that
  touches the application. \<open>addHandler\<close> and \<open>removeHandler\<close> are those of
  \<open>logging.Logger\<close>.
\<close>

record logging =
  root_handlers :: "handler list"
  root_level :: nat
  litellm_level :: nat
  litellm_propagate :: bool
  handlers_created :: nat

definition addHandler :: "logging \<Rightarrow> handler \<Rightarrow> logging" where
  "addHandler lg h =
     (if h \<notin> set (root_handlers lg) then lg\<lparr>root_handlers := root_handlers lg @ [h]\<rparr>
      else lg)"

definition removeHandler :: "logging \<Rightarrow> handler \<Rightarrow> logging" where
  "removeHandler lg h =
     (if h \<in> set (root_handlers lg) then lg\<lparr>root_handlers := remove1 h (root_handlers lg)\<rparr>
      else lg)"

subsection \<open>The application object\<close>

text \<open>
  \<open>log_queue\<close> and \<open>queue_handler\<close> are attributes that \<open>_setup_logging_queue\<close>
  creates: \<open>None\<close> before it ran. The chat panel takes no part in what follows and is
  left out, as are the lines written to the debug file \<open>tui_debug.log\<close> and the timers.
\<close>

record aden_tui =
  log_pane :: log_pane
  graph_view :: graph_overview
  is_ready :: bool
  log_queue :: "queue option"
  queue_handler :: "handler option"

definition AdenTUI_init :: "agent_runtime \<Rightarrow> aden_tui" where
  "AdenTUI_init rt =
     \<lparr>log_pane = \<lparr>is_mounted = False, log_is_mounted = False, main_log = []\<rparr>,
      graph_view = GraphOverview_init rt,
      is_ready = False, log_queue = None, queue_handler = None\<rparr>"

text \<open>
  \<open>_setup_logging_queue\<close>: an unbounded queue, a queue handler at level \<open>INFO\<close>; every
  handler of the root logger is removed (the loop runs over a copy of the list), the
  queue handler is added, and the levels are set.
\<close>

definition setup_logging_queue :: "aden_tui \<Rightarrow> logging \<Rightarrow> aden_tui \<times> logging" where
  "setup_logging_queue self lg =
     (let self1 = self\<lparr>log_queue := Some (Queue 0)\<rparr>;
          h = QueueHandler (handlers_created lg) INFO;
          lg0 = lg\<lparr>handlers_created := Suc (handlers_created lg)\<rparr>;
          self2 = self1\<lparr>queue_handler := Some h\<rparr>;
          lg1 = foldl removeHandler lg0 (root_handlers lg0);
          lg2 = addHandler lg1 h;
          lg3 = lg2\<lparr>root_level := INFO\<rparr>;
          lg4 = lg3\<lparr>litellm_level := CRITICAL, litellm_propagate := False\<rparr>
      in (self2, lg4))"

definition AdenTUI_on_mount :: "aden_tui \<Rightarrow> logging \<Rightarrow> aden_tui \<times> logging" where
  "AdenTUI_on_mount self lg =
     (let (self1, lg1) = setup_logging_queue self lg in (self1\<lparr>is_ready := True\<rparr>, lg1))"

definition AdenTUI_on_unmount :: "aden_tui \<Rightarrow> logging \<Rightarrow> aden_tui \<times> logging" where
  "AdenTUI_on_unmount self lg =
     (let self1 = self\<lparr>is_ready := False\<rparr> in
      case queue_handler self1 of
        Some h \<Rightarrow> (self1, removeHandler lg h)
      | None \<Rightarrow> (self1, lg))"

text \<open>
  The way of a log call to the queue, as \<open>logging\<close> has it. A record carries the name
  of the logger it is made by. The loggers under \<open>LiteLLM\<close> are that logger and its
  descendants \<open>LiteLLM.*\<close>.
\<close>

definition under_LiteLLM :: "string \<Rightarrow> bool" where
  "under_LiteLLM n = (n = ''LiteLLM'' \<or> prefix ''LiteLLM.'' n)"

text \<open>
  \<open>Logger.getEffectiveLevel\<close>: the level of the nearest logger, upwards, whose level
  is set. \<open>Logger.isEnabledFor\<close>: a logger makes a record only at or above it.
\<close>

definition getEffectiveLevel :: "logging \<Rightarrow> string \<Rightarrow> nat" where
  "getEffectiveLevel lg n =
     (if under_LiteLLM n \<and> litellm_level lg \<noteq> NOTSET then litellm_level lg
      else root_level lg)"

definition isEnabledFor :: "logging \<Rightarrow> string \<Rightarrow> nat \<Rightarrow> bool" where
  "isEnabledFor lg n level = (getEffectiveLevel lg n \<le> level)"

text \<open>
  \<open>QueueHandler.emit\<close> puts the record on the handler's queue, the queue of the
  application that made the handler, with \<open>put_nowait\<close>; were the queue full, the
  handler would swallow the error and the record would be lost.
\<close>

definition emit :: "aden_tui \<Rightarrow> log_record \<Rightarrow> aden_tui" where
  "emit self r =
     (case log_queue self of
        None \<Rightarrow> self
      | Some q \<Rightarrow>
          (case put_nowait q r of
             None \<Rightarrow> self
           | Some q' \<Rightarrow> self\<lparr>log_queue := Some q'\<rparr>))"

text \<open>
  One handler of the root logger is offered a record: the application's own queue
  handler, the same object, emits it when the record meets the handler's level; any
  other handler writes elsewhere.
\<close>

definition handle_by :: "aden_tui \<Rightarrow> log_record \<Rightarrow> handler \<Rightarrow> aden_tui" where
  "handle_by self r h =
     (case h of
        QueueHandler i lvl \<Rightarrow>
          if queue_handler self = Some h \<and> lvl \<le> levelno r then emit self r else self
      | OtherHandler k \<Rightarrow> self)"

text \<open>
  \<open>Logger.callHandlers\<close> walks from the record's logger up to the root and stops
  below the root at a logger that does not propagate; here that can only be
  \<open>LiteLLM\<close>. At the root the record is offered to each handler in turn.
\<close>

definition callHandlers :: "logging \<Rightarrow> aden_tui \<Rightarrow> log_record \<Rightarrow> aden_tui" where
  "callHandlers lg self r =
     (if under_LiteLLM (name r) \<and> \<not> litellm_propagate lg then self
      else foldl (\<lambda>app h. handle_by app r h) self (root_handlers lg))"

text \<open>A log call on the logger \<open>name r\<close> at the level \<open>levelno r\<close> (\<open>Logger.log\<close>).\<close>

definition Logger_log :: "logging \<Rightarrow> aden_tui \<Rightarrow> log_record \<Rightarrow> aden_tui" where
  "Logger_log lg self r =
     (if isEnabledFor lg (name r) (levelno r) then callHandlers lg self r else self)"

text \<open>\<open>str.startswith\<close> with a tuple of prefixes.\<close>

definition startswith :: "string \<Rightarrow> string list \<Rightarrow> bool" where
  "startswith s ps = list_ex (\<lambda>p. prefix p s) ps"

text \<open>
  The loop of \<open>_poll_logs\<close> takes records off the queue until it is empty: a recursion
  over the queued records, oldest first. \<open>count\<close> is the number of messages written.
  While the attribute \<open>log_queue\<close> is missing, the error of reading it is caught by
  the \<open>except\<close> clause of \<open>_poll_logs\<close> and nothing changes.
\<close>

fun poll_loop :: "log_record list \<Rightarrow> log_pane \<Rightarrow> nat \<Rightarrow> log_pane \<times> nat" where
  "poll_loop [] pane count = (pane, count)"
| "poll_loop (r # rest) pane count =
     (if startswith (name r) [''textual'', ''LiteLLM'', ''litellm'']
      then poll_loop rest pane count
      else poll_loop rest (write_log pane (message r)) (count + 1))"

definition poll_logs :: "aden_tui \<Rightarrow> aden_tui" where
  "poll_logs self =
     (if \<not> is_ready self then self
      else
        (case log_queue self of
           None \<Rightarrow> self
         | Some q \<Rightarrow>
             (let (pane, count) = poll_loop (items q) (log_pane self) 0
              in self\<lparr>log_queue := Some (q\<lparr>items := []\<rparr>), log_pane := pane\<rparr>)))"

text \<open>
  \<open>_handle_event_sync\<close> probes the object it is handed: it may have no attribute
  \<open>type\<close>, or a \<open>type\<close> without \<open>value\<close>, or be an event of the runtime. The values of
  the members of \<open>EventType\<close> are those of \<open>framework.runtime.event_bus\<close>; they are the
  parameter \<open>type_value\<close>.
\<close>

datatype py_object = NoTypeAttribute | TypeWithoutValue | RuntimeEvent event

definition handle_event_sync ::
  "(event_type \<Rightarrow> string) \<Rightarrow> aden_tui \<Rightarrow> py_object \<Rightarrow> aden_tui" where
  "handle_event_sync type_value self obj =
     (if \<not> is_ready self then self
      else
        (case obj of
           NoTypeAttribute \<Rightarrow> self
         | TypeWithoutValue \<Rightarrow> self
         | RuntimeEvent event \<Rightarrow>
             if startswith (type_value (type event)) [''execution_'', ''node_'']
             then self\<lparr>graph_view := update_execution (graph_view self) event\<rparr>
             else self))"

section \<open>Notions the properties are stated with\<close>

subsection \<open>The active node of an event sequence\<close>

text \<open>
  \<open>started e\<close> is the node a \<open>NODE_STARTED\<close> event makes active: the event carries a
  node identifier that passes the truth test. \<open>completes n e\<close>: the event is the
  \<open>NODE_COMPLETED\<close> of node \<open>n\<close>.
\<close>

definition started :: "event \<Rightarrow> string option" where
  "started e =
     (if type e = NODE_STARTED \<and> truthy (data e ''node_id'') then data e ''node_id''
      else None)"

definition completes :: "string \<Rightarrow> event \<Rightarrow> bool" where
  "completes n e = (type e = NODE_COMPLETED \<and> data e ''node_id'' = Some n)"

text \<open>
  The specification's reading of the active node, in its words: the node of the latest
  \<open>NodeStarted\<close> not yet matched by a \<open>NodeCompleted\<close> for the same node, or none. The
  list holds the events oldest first; a start is matched when a completion of its node
  comes later.
\<close>

fun spec_active_node :: "event list \<Rightarrow> string option" where
  "spec_active_node [] = None"
| "spec_active_node (e # later) =
     (case spec_active_node later of
        Some n \<Rightarrow> Some n
      | None \<Rightarrow>
          (case (if type e = NODE_STARTED then data e ''node_id'' else None) of
             Some n \<Rightarrow> if list_ex (completes n) later then None else Some n
           | None \<Rightarrow> None))"

text \<open>
  What the widget computes instead: only the latest start counts. Its node is active
  unless a completion of that node comes later; earlier starts are never returned to.
\<close>

fun last_started_unless_completed :: "event list \<Rightarrow> string option" where
  "last_started_unless_completed [] = None"
| "last_started_unless_completed (e # later) =
     (if list_ex (\<lambda>e'. started e' \<noteq> None) later then last_started_unless_completed later
      else
        (case started e of
           Some n \<Rightarrow> if list_ex (completes n) later then None else Some n
         | None \<Rightarrow> None))"

subsection \<open>A session of the log relay\<close>

text \<open>
  The test \<open>_poll_logs\<close> applies to a record's logger name, under a name of its own.
\<close>

definition framework_log :: "log_record \<Rightarrow> bool" where
  "framework_log r = startswith (name r) [''textual'', ''LiteLLM'', ''litellm'']"

text \<open>
  Log calls made one after the other, and the test that decides which of them reach
  the queue of an application whose handler \<open>h\<close> is the root logger's only handler.
\<close>

definition pushed :: "logging \<Rightarrow> aden_tui \<Rightarrow> log_record list \<Rightarrow> aden_tui" where
  "pushed lg self rs = foldl (Logger_log lg) self rs"

definition handler_level :: "handler \<Rightarrow> nat" where
  "handler_level h = (case h of QueueHandler i lvl \<Rightarrow> lvl | OtherHandler k \<Rightarrow> NOTSET)"

definition reaches_queue :: "logging \<Rightarrow> handler \<Rightarrow> log_record \<Rightarrow> bool" where
  "reaches_queue lg h r =
     (isEnabledFor lg (name r) (levelno r) \<and>
      \<not> (under_LiteLLM (name r) \<and> \<not> litellm_propagate lg) \<and>
      handler_level h \<le> levelno r)"




text \<open>Mounting the application and unmounting it again: one session.\<close>

definition start_then_stop :: "aden_tui \<Rightarrow> logging \<Rightarrow> aden_tui \<times> logging" where
  "start_then_stop self lg =
     (let (self1, lg1) = AdenTUI_on_mount self lg in AdenTUI_on_unmount self1 lg1)"

text \<open>
  A logging configuration with one handler installed before the session, and an
  application whose log pane is mounted, to evaluate the relay on.
\<close>

definition demo_logging :: logging where
  "demo_logging =
     \<lparr>root_handlers = [OtherHandler 0], root_level = 30, litellm_level = 0,
      litellm_propagate = True, handlers_created = 0\<rparr>"

definition demo_app :: aden_tui where
  "demo_app =
     (AdenTUI_init demo_runtime)
       \<lparr>log_pane := \<lparr>is_mounted = True, log_is_mounted = True, main_log = []\<rparr>\<rparr>"

section \<open>The state machine of the graph view\<close>

subsection \<open>What one event does to each attribute\<close>

lemma display_graph_fields [simp]:
  "active_node (display_graph s) = active_node s"
  "execution_path (display_graph s) = execution_path s"
  "runtime (display_graph s) = runtime s"
  by (simp_all add: display_graph_def Let_def)

lemma update_active_node_fields [simp]:
  "active_node (update_active_node s n) = Some n"
  "execution_path (update_active_node s n) =
     (if n \<in> set (execution_path s) then execution_path s else execution_path s @ [n])"
  "runtime (update_active_node s n) = runtime s"
  by (simp_all add: update_active_node_def Let_def)

lemma active_node_update_execution:
  "active_node (update_execution s e) =
     (if type e = NODE_STARTED then
        (if truthy (data e ''node_id'') then data e ''node_id'' else active_node s)
      else if type e = NODE_COMPLETED then
        (if truthy (data e ''node_id'') \<and> data e ''node_id'' = active_node s then None
         else active_node s)
      else if type e = EXECUTION_COMPLETED \<or> type e = EXECUTION_FAILED then None
      else active_node s)"
  by (auto simp: update_execution_def Let_def truthy_def split: option.splits)

lemma execution_path_update_execution:
  "execution_path (update_execution s e) =
     (if type e = NODE_STARTED \<and> truthy (data e ''node_id'')
         \<and> the (data e ''node_id'') \<notin> set (execution_path s)
      then execution_path s @ [the (data e ''node_id'')]
      else execution_path s)"
  by (auto simp: update_execution_def Let_def truthy_def split: option.splits)

lemma distinct_update_execution:
  "distinct (execution_path s) \<Longrightarrow> distinct (execution_path (update_execution s e))"
  by (simp add: execution_path_update_execution)

lemma distinct_apply_events:
  "distinct (execution_path s) \<Longrightarrow> distinct (execution_path (apply_events s es))"
  unfolding apply_events_def
  by (induction es arbitrary: s) (simp_all add: distinct_update_execution)

text \<open>The active node is never the empty identifier, once it was not.\<close>

lemma active_node_update_execution_nonempty:
  "active_node s \<noteq> Some [] \<Longrightarrow> active_node (update_execution s e) \<noteq> Some []"
  by (auto simp: active_node_update_execution truthy_def split: option.splits)

lemma active_node_apply_events_nonempty:
  "active_node s \<noteq> Some [] \<Longrightarrow> active_node (apply_events s es) \<noteq> Some []"
  unfolding apply_events_def
  by (induction es arbitrary: s) (simp_all add: active_node_update_execution_nonempty)

subsection \<open>The active node after a sequence of node events\<close>

text \<open>
  From any state: if the sequence holds a start, the state it began in is forgotten;
  if it holds none, the node that was active stays so unless the sequence completes it.
\<close>

lemma active_node_apply_events:
  assumes "\<forall>e \<in> set es. type e = NODE_STARTED \<or> type e = NODE_COMPLETED"
  shows "active_node (apply_events s es) =
     (if list_ex (\<lambda>e. started e \<noteq> None) es then last_started_unless_completed es
      else
        (case active_node s of
           Some a \<Rightarrow> if a \<noteq> [] \<and> list_ex (completes a) es then None else Some a
         | None \<Rightarrow> None))"
  using assms
proof (induction es arbitrary: s)
  case Nil
  then show ?case by (simp add: apply_events_def split: option.splits)
next
  case (Cons e es)
  have step: "apply_events s (e # es) = apply_events (update_execution s e) es"
    by (simp add: apply_events_def)
  have ty: "type e = NODE_STARTED \<or> type e = NODE_COMPLETED"
    using Cons.prems by simp
  have IH: "active_node (apply_events (update_execution s e) es) =
     (if list_ex (\<lambda>e. started e \<noteq> None) es then last_started_unless_completed es
      else
        (case active_node (update_execution s e) of
           Some a \<Rightarrow> if a \<noteq> [] \<and> list_ex (completes a) es then None else Some a
         | None \<Rightarrow> None))"
    using Cons.IH Cons.prems by simp
  show ?case
  proof (cases "list_ex (\<lambda>e. started e \<noteq> None) es")
    case True
    then show ?thesis using IH step by simp
  next
    case False
    show ?thesis
    proof (cases "started e")
      case None
      then show ?thesis
        using False IH step ty
        by (auto simp: active_node_update_execution started_def completes_def truthy_def
            split: option.splits if_splits)
    next
      case (Some n)
      then show ?thesis
        using False IH step ty
        by (auto simp: active_node_update_execution started_def completes_def truthy_def
            split: option.splits if_splits)
    qed
  qed
qed

lemma last_started_unless_completed_no_start:
  "\<not> list_ex (\<lambda>e. started e \<noteq> None) es \<Longrightarrow> last_started_unless_completed es = None"
  by (induction es) (auto split: option.splits)

text \<open>
  Claim C1, as the widget has it. For every sequence of \<open>NODE_STARTED\<close> and
  \<open>NODE_COMPLETED\<close> events applied in order to the freshly created widget, the active
  node is the node of the latest start that carries a non-empty node identifier,
  provided no completion of that node follows it; it is none when such a completion
  follows, and when the sequence holds no such start. The widget keeps one active node
  and no record of earlier starts, so it never falls back to an earlier node.
\<close>

theorem active_node_is_last_started_unless_completed:
  assumes "list_all (\<lambda>e. type e = NODE_STARTED \<or> type e = NODE_COMPLETED) es"
  shows "active_node (apply_events (GraphOverview_init rt) es) =
           last_started_unless_completed es"
proof -
  have node_events: "\<forall>e \<in> set es. type e = NODE_STARTED \<or> type e = NODE_COMPLETED"
    using assms by (simp add: list_all_iff)
  have none: "active_node (GraphOverview_init rt) = None"
    by (simp add: GraphOverview_init_def)
  show ?thesis
    using active_node_apply_events [OF node_events, of "GraphOverview_init rt"] none
      last_started_unless_completed_no_start [of es]
    by (simp split: if_splits)
qed

text \<open>
  The theorem at the sequence start \<open>n1\<close>, start \<open>n2\<close>, complete \<open>n1\<close>: the stale
  completion is ignored and \<open>n2\<close> stays active.
\<close>

theorem active_node_is_last_started_unless_completed_witness:
  "list_all (\<lambda>e. type e = NODE_STARTED \<or> type e = NODE_COMPLETED)
     [NodeStarted ''n1'', NodeStarted ''n2'', NodeCompleted ''n1''] \<and>
   active_node (apply_events (GraphOverview_init demo_runtime)
     [NodeStarted ''n1'', NodeStarted ''n2'', NodeCompleted ''n1'']) = Some ''n2''"
proof -
  have h: "list_all (\<lambda>e. type e = NODE_STARTED \<or> type e = NODE_COMPLETED)
     [NodeStarted ''n1'', NodeStarted ''n2'', NodeCompleted ''n1'']"
    by (simp add: NodeStarted_def NodeCompleted_def)
  have v: "last_started_unless_completed
     [NodeStarted ''n1'', NodeStarted ''n2'', NodeCompleted ''n1''] = Some ''n2''"
    by (simp add: NodeStarted_def NodeCompleted_def started_def completes_def truthy_def)
  show ?thesis
    using active_node_is_last_started_unless_completed [OF h, of demo_runtime] h v by simp
qed

text \<open>
  Claim C1 as the specification states it fails at start \<open>n1\<close>, start \<open>n2\<close>, complete
  \<open>n2\<close>: the start of \<open>n1\<close> is the latest one without a completion, yet the widget
  shows no active node.
\<close>

theorem latest_unmatched_start_counterexample:
  "spec_active_node [NodeStarted ''n1'', NodeStarted ''n2'', NodeCompleted ''n2'']
     = Some ''n1'' \<and>
   active_node (apply_events (GraphOverview_init demo_runtime)
     [NodeStarted ''n1'', NodeStarted ''n2'', NodeCompleted ''n2'']) = None \<and>
   active_node (apply_events (GraphOverview_init demo_runtime)
     [NodeStarted ''n1'', NodeStarted ''n2'', NodeCompleted ''n2''])
     \<noteq> spec_active_node [NodeStarted ''n1'', NodeStarted ''n2'', NodeCompleted ''n2'']"
  by (simp add: apply_events_def active_node_update_execution NodeStarted_def
      NodeCompleted_def completes_def truthy_def)

subsection \<open>Single events\<close>

text \<open>
  Claim C2, as the widget has it. For every state and every non-empty node identifier
  \<open>n\<close>, a \<open>NODE_STARTED\<close> event for \<open>n\<close> makes \<open>n\<close> the active node and appends \<open>n\<close> to
  the execution path if and only if \<open>n\<close> occurs nowhere in the path. In particular, when
  \<open>n\<close> is already the last entry of the path, the active node is set and the path is
  unchanged.
\<close>

theorem NodeStarted_appends_iff_absent:
  assumes "type e = NODE_STARTED" and "data e ''node_id'' = Some n" and "n \<noteq> []"
  shows "active_node (update_execution s e) = Some n \<and>
         execution_path (update_execution s e) =
           (if n \<in> set (execution_path s) then execution_path s
            else execution_path s @ [n]) \<and>
         (execution_path s \<noteq> [] \<and> last (execution_path s) = n \<longrightarrow>
            execution_path (update_execution s e) = execution_path s)"
proof -
  have t: "truthy (data e ''node_id'')"
    using assms by (simp add: truthy_def)
  have a: "active_node (update_execution s e) = Some n"
    using assms t by (simp add: active_node_update_execution)
  have p: "execution_path (update_execution s e) =
           (if n \<in> set (execution_path s) then execution_path s
            else execution_path s @ [n])"
    using assms t by (simp add: execution_path_update_execution)
  have "n \<in> set (execution_path s)"
    if "execution_path s \<noteq> []" and "last (execution_path s) = n"
    using that last_in_set by blast
  then show ?thesis using a p by simp
qed

text \<open>
  The theorem on the path \<open>n1, n2\<close>, where \<open>n1\<close> is started again, and on the empty
  path.
\<close>

theorem NodeStarted_appends_iff_absent_witness:
  "active_node (update_execution
       (apply_events (GraphOverview_init demo_runtime) [NodeStarted ''n1'', NodeStarted ''n2''])
       (NodeStarted ''n1'')) = Some ''n1'' \<and>
   execution_path (update_execution
       (apply_events (GraphOverview_init demo_runtime) [NodeStarted ''n1'', NodeStarted ''n2''])
       (NodeStarted ''n1'')) = [''n1'', ''n2''] \<and>
   execution_path (update_execution (GraphOverview_init demo_runtime) (NodeStarted ''n1''))
     = [''n1'']"
proof -
  have s: "execution_path
       (apply_events (GraphOverview_init demo_runtime) [NodeStarted ''n1'', NodeStarted ''n2''])
       = [''n1'', ''n2'']"
    by (simp add: apply_events_def execution_path_update_execution NodeStarted_def
        GraphOverview_init_def truthy_def)
  have i: "execution_path (GraphOverview_init demo_runtime) = []"
    by (simp add: GraphOverview_init_def)
  have h: "type (NodeStarted ''n1'') = NODE_STARTED"
    "data (NodeStarted ''n1'') ''node_id'' = Some ''n1''" "''n1'' \<noteq> []"
    by (simp_all add: NodeStarted_def)
  show ?thesis
    using NodeStarted_appends_iff_absent [OF h,
        of "apply_events (GraphOverview_init demo_runtime) [NodeStarted ''n1'', NodeStarted ''n2'']"]
      NodeStarted_appends_iff_absent [OF h, of "GraphOverview_init demo_runtime"] s i
    by simp
qed

text \<open>
  Claim C2 as the specification states it fails twice. On the path \<open>n1, n2\<close> the last
  entry differs from \<open>n1\<close>, yet starting \<open>n1\<close> appends nothing. And a start carrying the
  empty identifier does not become the active node.
\<close>

theorem NodeStarted_last_entry_counterexample:
  "last (execution_path
      (apply_events (GraphOverview_init demo_runtime) [NodeStarted ''n1'', NodeStarted ''n2'']))
     \<noteq> ''n1'' \<and>
   execution_path (update_execution
      (apply_events (GraphOverview_init demo_runtime) [NodeStarted ''n1'', NodeStarted ''n2''])
      (NodeStarted ''n1''))
     \<noteq> execution_path
      (apply_events (GraphOverview_init demo_runtime) [NodeStarted ''n1'', NodeStarted ''n2''])
      @ [''n1''] \<and>
   active_node (update_execution (GraphOverview_init demo_runtime) (NodeStarted ''''))
     \<noteq> Some ''''"
  by (simp add: apply_events_def execution_path_update_execution
      active_node_update_execution NodeStarted_def GraphOverview_init_def truthy_def)

text \<open>
  Claim C3. For every state, an \<open>EXECUTION_COMPLETED\<close> event clears the active node and
  writes the success banner, so that the terminal status reads \<open>ok\<close>; an
  \<open>EXECUTION_FAILED\<close> event carrying an error message clears the active node and writes
  the failure banner with that message, so that the terminal status reads \<open>failed\<close> of
  it. The execution path is untouched. In particular the failure \<open>boom\<close>, applied to the
  freshly created widget, leaves no active node, an empty path and the status
  \<open>failed boom\<close>.
\<close>

theorem execution_end_clears_active_node_and_sets_status:
  "(type e = EXECUTION_COMPLETED \<longrightarrow>
      active_node (update_execution s e) = None \<and>
      terminal_status (update_execution s e) = Some ok \<and>
      display (update_execution s e) = display s @ [Blank, ExecutionComplete] \<and>
      execution_path (update_execution s e) = execution_path s) \<and>
   (type e = EXECUTION_FAILED \<and> data e ''error'' = Some error \<longrightarrow>
      active_node (update_execution s e) = None \<and>
      terminal_status (update_execution s e) = Some (failed error) \<and>
      display (update_execution s e) = display s @ [Blank, ExecutionFailedLine error] \<and>
      execution_path (update_execution s e) = execution_path s) \<and>
   active_node (update_execution (GraphOverview_init rt) (ExecutionFailed ''boom'')) = None \<and>
   terminal_status (update_execution (GraphOverview_init rt) (ExecutionFailed ''boom''))
     = Some (failed ''boom'') \<and>
   execution_path (update_execution (GraphOverview_init rt) (ExecutionFailed ''boom'')) = []"
  by (simp add: update_execution_def terminal_status_def ExecutionFailed_def
      GraphOverview_init_def)

text \<open>
  The theorem after the starts of \<open>n1\<close> and \<open>n2\<close>: completion leaves the path
  \<open>n1, n2\<close>, no active node and the status \<open>ok\<close>; and a failure after the start of
  \<open>n1\<close>.
\<close>

theorem execution_end_clears_active_node_and_sets_status_witness:
  "active_node (update_execution
      (apply_events (GraphOverview_init demo_runtime) [NodeStarted ''n1'', NodeStarted ''n2''])
      ExecutionCompleted) = None \<and>
   terminal_status (update_execution
      (apply_events (GraphOverview_init demo_runtime) [NodeStarted ''n1'', NodeStarted ''n2''])
      ExecutionCompleted) = Some ok \<and>
   execution_path (update_execution
      (apply_events (GraphOverview_init demo_runtime) [NodeStarted ''n1'', NodeStarted ''n2''])
      ExecutionCompleted) = [''n1'', ''n2''] \<and>
   active_node (update_execution
      (apply_events (GraphOverview_init demo_runtime) [NodeStarted ''n1''])
      (ExecutionFailed ''boom'')) = None \<and>
   terminal_status (update_execution
      (apply_events (GraphOverview_init demo_runtime) [NodeStarted ''n1''])
      (ExecutionFailed ''boom'')) = Some (failed ''boom'')"
proof -
  have p: "execution_path
      (apply_events (GraphOverview_init demo_runtime) [NodeStarted ''n1'', NodeStarted ''n2''])
      = [''n1'', ''n2'']"
    by (simp add: apply_events_def execution_path_update_execution NodeStarted_def
        GraphOverview_init_def truthy_def)
  show ?thesis
    using execution_end_clears_active_node_and_sets_status
        [of ExecutionCompleted
          "apply_events (GraphOverview_init demo_runtime) [NodeStarted ''n1'', NodeStarted ''n2'']"
          "''none''" demo_runtime]
      execution_end_clears_active_node_and_sets_status
        [of "ExecutionFailed ''boom''"
          "apply_events (GraphOverview_init demo_runtime) [NodeStarted ''n1'']"
          "''boom''" demo_runtime] p
    by (simp add: ExecutionCompleted_def ExecutionFailed_def)
qed

text \<open>
  Claim C5. In every state the widget reaches from its creation by any events, and for
  every node identifier \<open>n\<close>: a \<open>NODE_COMPLETED\<close> event for \<open>n\<close> clears the active node
  when \<open>n\<close> is the active node, leaves the active node as it is when it is not, and
  never changes the execution path.
\<close>

theorem NodeCompleted_clears_only_the_active_node:
  assumes "type e = NODE_COMPLETED" and "data e ''node_id'' = Some n"
    and "s = apply_events (GraphOverview_init rt) es"
  shows "(active_node s = Some n \<longrightarrow> active_node (update_execution s e) = None) \<and>
         (active_node s \<noteq> Some n \<longrightarrow> active_node (update_execution s e) = active_node s) \<and>
         execution_path (update_execution s e) = execution_path s"
proof -
  have "active_node (GraphOverview_init rt) \<noteq> Some []"
    by (simp add: GraphOverview_init_def)
  then have "active_node s \<noteq> Some []"
    using assms(3) active_node_apply_events_nonempty by simp
  then show ?thesis
    using assms(1,2)
    by (auto simp: active_node_update_execution execution_path_update_execution truthy_def)
qed

text \<open>
  The theorem after the start of \<open>n1\<close>: the completion of \<open>n1\<close> clears the active node,
  the completion of \<open>n2\<close> does not, and the path stays \<open>n1\<close>.
\<close>

theorem NodeCompleted_clears_only_the_active_node_witness:
  "active_node (update_execution
      (apply_events (GraphOverview_init demo_runtime) [NodeStarted ''n1''])
      (NodeCompleted ''n1'')) = None \<and>
   active_node (update_execution
      (apply_events (GraphOverview_init demo_runtime) [NodeStarted ''n1''])
      (NodeCompleted ''n2'')) = Some ''n1'' \<and>
   execution_path (update_execution
      (apply_events (GraphOverview_init demo_runtime) [NodeStarted ''n1''])
      (NodeCompleted ''n1'')) = [''n1'']"
proof -
  have a: "active_node (apply_events (GraphOverview_init demo_runtime) [NodeStarted ''n1''])
      = Some ''n1''"
    by (simp add: apply_events_def active_node_update_execution NodeStarted_def truthy_def)
  have p: "execution_path (apply_events (GraphOverview_init demo_runtime) [NodeStarted ''n1''])
      = [''n1'']"
    by (simp add: apply_events_def execution_path_update_execution NodeStarted_def
        GraphOverview_init_def truthy_def)
  have h1: "type (NodeCompleted ''n1'') = NODE_COMPLETED"
    "data (NodeCompleted ''n1'') ''node_id'' = Some ''n1''"
    by (simp_all add: NodeCompleted_def)
  have h2: "type (NodeCompleted ''n2'') = NODE_COMPLETED"
    "data (NodeCompleted ''n2'') ''node_id'' = Some ''n2''"
    by (simp_all add: NodeCompleted_def)
  show ?thesis
    using
      NodeCompleted_clears_only_the_active_node
        [OF h1 refl, of demo_runtime "[NodeStarted ''n1'']"]
      NodeCompleted_clears_only_the_active_node
        [OF h2 refl, of demo_runtime "[NodeStarted ''n1'']"]
      a p
    by simp
qed

text \<open>
  Claim C10. After every sequence of events applied to the freshly created widget, no
  node identifier occurs twice in the execution path, next to each other or not: an
  event extends the path only when it is a start whose node occurs nowhere in the path,
  and then by that node alone.
\<close>

theorem execution_path_never_repeats_a_node:
  "distinct (execution_path (apply_events (GraphOverview_init rt) es)) \<and>
   execution_path (update_execution s e) =
     (if type e = NODE_STARTED \<and> truthy (data e ''node_id'')
         \<and> the (data e ''node_id'') \<notin> set (execution_path s)
      then execution_path s @ [the (data e ''node_id'')]
      else execution_path s)"
proof -
  have "distinct (execution_path (GraphOverview_init rt))"
    by (simp add: GraphOverview_init_def)
  then show ?thesis
    using distinct_apply_events [of "GraphOverview_init rt" es]
    by (simp add: execution_path_update_execution)
qed

text \<open>
  The theorem on a sequence that starts \<open>n1\<close> twice and \<open>n2\<close> twice, not next to each
  other: the path is \<open>n1, n2\<close>.
\<close>

theorem execution_path_never_repeats_a_node_witness:
  "distinct (execution_path (apply_events (GraphOverview_init demo_runtime)
      [NodeStarted ''n1'', NodeStarted ''n2'', NodeStarted ''n1'', NodeCompleted ''n1'',
       NodeStarted ''n2''])) \<and>
   execution_path (apply_events (GraphOverview_init demo_runtime)
      [NodeStarted ''n1'', NodeStarted ''n2'', NodeStarted ''n1'', NodeCompleted ''n1'',
       NodeStarted ''n2'']) = [''n1'', ''n2'']"
proof -
  have "execution_path (apply_events (GraphOverview_init demo_runtime)
      [NodeStarted ''n1'', NodeStarted ''n2'', NodeStarted ''n1'', NodeCompleted ''n1'',
       NodeStarted ''n2'']) = [''n1'', ''n2'']"
    by (simp add: apply_events_def execution_path_update_execution NodeStarted_def
        NodeCompleted_def GraphOverview_init_def truthy_def)
  then show ?thesis
    using execution_path_never_repeats_a_node [of demo_runtime
        "[NodeStarted ''n1'', NodeStarted ''n2'', NodeStarted ''n1'', NodeCompleted ''n1'',
          NodeStarted ''n2'']" "GraphOverview_init demo_runtime" "NodeStarted ''n1''"]
    by simp
qed

text \<open>
  Claim C6, as the code has it. For every state, an event of a type the widget does not
  know, and a \<open>NODE_STARTED\<close> or \<open>NODE_COMPLETED\<close> event whose node identifier is
  missing or empty, leave the state unchanged; so does, for the application, an object
  without a \<open>type\<close>, a \<open>type\<close> without a \<open>value\<close>, and an event whose type value starts
  neither with \<open>execution_\<close> nor with \<open>node_\<close>. Nothing is raised on these paths. An
  \<open>EXECUTION_FAILED\<close> event without its \<open>error\<close> field is not ignored: it is applied
  with the message \<open>Unknown error\<close>.
\<close>

theorem unrecognized_events_change_nothing:
  "(type e = OTHER x \<longrightarrow> update_execution s e = s) \<and>
   ((type e = NODE_STARTED \<or> type e = NODE_COMPLETED) \<and> \<not> truthy (data e ''node_id'')
      \<longrightarrow> update_execution s e = s) \<and>
   handle_event_sync type_value app NoTypeAttribute = app \<and>
   handle_event_sync type_value app TypeWithoutValue = app \<and>
   (\<not> startswith (type_value (type e)) [''execution_'', ''node_'']
      \<longrightarrow> handle_event_sync type_value app (RuntimeEvent e) = app) \<and>
   (type e = OTHER x \<or>
    (type e = NODE_STARTED \<or> type e = NODE_COMPLETED) \<and> \<not> truthy (data e ''node_id'')
      \<longrightarrow> handle_event_sync type_value app (RuntimeEvent e) = app) \<and>
   (type e = EXECUTION_FAILED \<and> data e ''error'' = None
      \<longrightarrow> active_node (update_execution s e) = None \<and>
          display (update_execution s e) =
            display s @ [Blank, ExecutionFailedLine ''Unknown error''])"
  by (auto simp: update_execution_def handle_event_sync_def Let_def)

text \<open>
  The theorem after the start of \<open>n1\<close>: an event of another type and a start without
  node identifier change nothing; a failure without error field writes the default
  message.
\<close>

theorem unrecognized_events_change_nothing_witness:
  "update_execution
      (apply_events (GraphOverview_init demo_runtime) [NodeStarted ''n1''])
      \<lparr>type = OTHER ''node_retry'', data = [''node_id'' \<mapsto> ''n2'']\<rparr>
     = apply_events (GraphOverview_init demo_runtime) [NodeStarted ''n1''] \<and>
   update_execution
      (apply_events (GraphOverview_init demo_runtime) [NodeStarted ''n1''])
      \<lparr>type = NODE_STARTED, data = Map.empty\<rparr>
     = apply_events (GraphOverview_init demo_runtime) [NodeStarted ''n1''] \<and>
   display (update_execution (GraphOverview_init demo_runtime)
      \<lparr>type = EXECUTION_FAILED, data = Map.empty\<rparr>)
     = [Blank, ExecutionFailedLine ''Unknown error'']"
  using unrecognized_events_change_nothing
      [of "\<lparr>type = OTHER ''node_retry'', data = [''node_id'' \<mapsto> ''n2'']\<rparr>" "''node_retry''"
        "apply_events (GraphOverview_init demo_runtime) [NodeStarted ''n1'']"
        "\<lambda>t. ''node_retry''" demo_app]
    unrecognized_events_change_nothing
      [of "\<lparr>type = NODE_STARTED, data = Map.empty\<rparr>" "''x''"
        "apply_events (GraphOverview_init demo_runtime) [NodeStarted ''n1'']"
        "\<lambda>t. ''node_started''" demo_app]
    unrecognized_events_change_nothing
      [of "\<lparr>type = EXECUTION_FAILED, data = Map.empty\<rparr>" "''x''"
        "GraphOverview_init demo_runtime" "\<lambda>t. ''execution_failed''" demo_app]
  by (simp add: truthy_def GraphOverview_init_def)

text \<open>
  Claim C6 as the specification states it fails for an event that lacks an expected
  field other than the node identifier: after the start of \<open>n1\<close>, an
  \<open>EXECUTION_FAILED\<close> event without \<open>error\<close> changes the state, clearing the active
  node.
\<close>

theorem event_without_error_field_counterexample:
  "update_execution
      (apply_events (GraphOverview_init demo_runtime) [NodeStarted ''n1''])
      \<lparr>type = EXECUTION_FAILED, data = Map.empty\<rparr>
     \<noteq> apply_events (GraphOverview_init demo_runtime) [NodeStarted ''n1''] \<and>
   active_node (apply_events (GraphOverview_init demo_runtime) [NodeStarted ''n1''])
     = Some ''n1'' \<and>
   active_node (update_execution
      (apply_events (GraphOverview_init demo_runtime) [NodeStarted ''n1''])
      \<lparr>type = EXECUTION_FAILED, data = Map.empty\<rparr>) = None"
proof -
  have a: "active_node (apply_events (GraphOverview_init demo_runtime) [NodeStarted ''n1''])
     = Some ''n1''"
    by (simp add: apply_events_def active_node_update_execution NodeStarted_def truthy_def)
  have b: "active_node (update_execution
      (apply_events (GraphOverview_init demo_runtime) [NodeStarted ''n1''])
      \<lparr>type = EXECUTION_FAILED, data = Map.empty\<rparr>) = None"
    by (simp add: active_node_update_execution)
  from a b show ?thesis by auto
qed

section \<open>The log relay\<close>

subsection \<open>Setting up and tearing down\<close>

text \<open>
  Removing the handlers one by one, over a copy of the list, removes them all: each
  step removes the head of what is left.
\<close>

lemma remove_all_handlers:
  "root_handlers lg = hs \<Longrightarrow> root_handlers (foldl removeHandler lg hs) = []"
proof (induction hs arbitrary: lg)
  case Nil
  then show ?case by simp
next
  case (Cons h hs)
  have "root_handlers (removeHandler lg h) = hs"
    using Cons.prems by (simp add: removeHandler_def)
  then show ?case using Cons.IH by simp
qed

lemma remove_all_handlers_created:
  "handlers_created (foldl removeHandler lg hs) = handlers_created lg"
  by (induction hs arbitrary: lg) (simp_all add: removeHandler_def)

lemma setup_logging_queue_logging:
  "snd (setup_logging_queue app lg) =
     \<lparr>root_handlers = [QueueHandler (handlers_created lg) INFO], root_level = INFO,
      litellm_level = CRITICAL, litellm_propagate = False,
      handlers_created = Suc (handlers_created lg)\<rparr>"
  by (simp add: setup_logging_queue_def Let_def addHandler_def remove_all_handlers
      remove_all_handlers_created)

lemma setup_logging_queue_app:
  "fst (setup_logging_queue app lg) =
     app\<lparr>log_queue := Some (Queue 0),
         queue_handler := Some (QueueHandler (handlers_created lg) INFO)\<rparr>"
  by (simp add: setup_logging_queue_def Let_def)

lemma on_mount_app:
  "fst (AdenTUI_on_mount app lg) =
     app\<lparr>log_queue := Some (Queue 0),
         queue_handler := Some (QueueHandler (handlers_created lg) INFO),
         is_ready := True\<rparr>"
  using setup_logging_queue_app [of app lg]
  by (simp add: AdenTUI_on_mount_def split_beta)

lemma on_mount_logging:
  "snd (AdenTUI_on_mount app lg) =
     \<lparr>root_handlers = [QueueHandler (handlers_created lg) INFO], root_level = INFO,
      litellm_level = CRITICAL, litellm_propagate = False,
      handlers_created = Suc (handlers_created lg)\<rparr>"
  using setup_logging_queue_logging [of app lg]
  by (simp add: AdenTUI_on_mount_def split_beta)

lemma start_then_stop_logging:
  "snd (start_then_stop app lg) =
     \<lparr>root_handlers = [], root_level = INFO, litellm_level = CRITICAL,
      litellm_propagate = False, handlers_created = Suc (handlers_created lg)\<rparr>"
  by (simp add: start_then_stop_def split_beta AdenTUI_on_unmount_def on_mount_app
      on_mount_logging removeHandler_def)


subsection \<open>Pushing and draining\<close>

text \<open>
  The loop hands the message of every record that is not a framework log to the log
  pane, oldest first; the pane takes them only while it is mounted.
\<close>

lemma write_log_mounted:
  "is_mounted (write_log pane m) = is_mounted pane"
  "log_is_mounted (write_log pane m) = log_is_mounted pane"
  by (simp_all add: write_log_def)

lemma poll_loop_pane:
  "fst (poll_loop rs pane count) =
     (if is_mounted pane \<and> log_is_mounted pane
      then pane\<lparr>main_log :=
             main_log pane @ map message (filter (\<lambda>r. \<not> framework_log r) rs)\<rparr>
      else pane)"
proof (induction rs arbitrary: pane count)
  case Nil
  then show ?case by simp
next
  case (Cons r rs)
  show ?case
  proof (cases "framework_log r")
    case True
    then show ?thesis using Cons.IH by (simp add: framework_log_def)
  next
    case False
    have "fst (poll_loop (r # rs) pane count) =
        fst (poll_loop rs (write_log pane (message r)) (count + 1))"
      using False by (simp add: framework_log_def)
    also have "\<dots> =
      (if is_mounted pane \<and> log_is_mounted pane
       then (write_log pane (message r))\<lparr>main_log :=
              main_log (write_log pane (message r)) @
              map message (filter (\<lambda>r. \<not> framework_log r) rs)\<rparr>
       else write_log pane (message r))"
      by (simp add: Cons.IH write_log_mounted)
    finally show ?thesis
      using False by (simp add: write_log_def)
  qed
qed

lemma poll_logs_result:
  assumes "is_ready app" and "log_queue app = Some q"
  shows "poll_logs app =
     app\<lparr>log_queue := Some (q\<lparr>items := []\<rparr>),
         log_pane :=
           (if is_mounted (log_pane app) \<and> log_is_mounted (log_pane app)
            then (log_pane app)\<lparr>main_log := main_log (log_pane app) @
                   map message (filter (\<lambda>r. \<not> framework_log r) (items q))\<rparr>
            else log_pane app)\<rparr>"
  using assms poll_loop_pane [of "items q" "log_pane app" 0]
  by (simp add: poll_logs_def split_beta)

text \<open>
  One log call, when the application's handler is the only handler of the root logger
  and the queue is not full.
\<close>

lemma Logger_log_single_handler:
  assumes "queue_handler app = Some h" and "h = QueueHandler i lvl"
    and "root_handlers lg = [h]" and "log_queue app = Some q" and "\<not> full q"
  shows "Logger_log lg app r =
     (if reaches_queue lg h r then app\<lparr>log_queue := Some (q\<lparr>items := items q @ [r]\<rparr>)\<rparr>
      else app)"
  using assms
  by (simp add: Logger_log_def callHandlers_def handle_by_def reaches_queue_def
      handler_level_def emit_def put_nowait_def)

text \<open>On a queue without bound every record that reaches it is kept.\<close>

lemma pushed_unbounded:
  assumes "queue_handler app = Some h" and "h = QueueHandler i lvl"
    and "root_handlers lg = [h]"
    and "log_queue app = Some q" and "maxsize q = 0"
  shows "pushed lg app rs =
     app\<lparr>log_queue := Some (q\<lparr>items := items q @ filter (reaches_queue lg h) rs\<rparr>)\<rparr>"
  using assms(1,4,5)
proof (induction rs arbitrary: app q)
  case Nil
  then show ?case by (simp add: pushed_def)
next
  case (Cons r rs)
  have step: "pushed lg app (r # rs) = pushed lg (Logger_log lg app r) rs"
    by (simp add: pushed_def)
  have nf: "\<not> full q"
    using Cons.prems by (simp add: full_def)
  have one: "Logger_log lg app r =
     (if reaches_queue lg h r then app\<lparr>log_queue := Some (q\<lparr>items := items q @ [r]\<rparr>)\<rparr>
      else app)"
    using Cons.prems assms(2,3) nf
    by (intro Logger_log_single_handler [where i = i and lvl = lvl]) simp_all
  show ?case
  proof (cases "reaches_queue lg h r")
    case True
    let ?q = "q\<lparr>items := items q @ [r]\<rparr>"
    have "pushed lg (app\<lparr>log_queue := Some ?q\<rparr>) rs =
      (app\<lparr>log_queue := Some ?q\<rparr>)\<lparr>log_queue :=
         Some (?q\<lparr>items := items ?q @ filter (reaches_queue lg h) rs\<rparr>)\<rparr>"
      using Cons.prems by (intro Cons.IH) simp_all
    then show ?thesis using step one True by simp
  next
    case False
    show ?thesis using step one False Cons.IH [OF Cons.prems] by simp
  qed
qed

text \<open>
  In a session, what reaches the queue: the records at level \<open>INFO\<close> or above that
  are not made under the logger \<open>LiteLLM\<close>. Those made under it are framework logs.
\<close>

lemma reaches_queue_session:
  "reaches_queue (snd (AdenTUI_on_mount app lg)) (QueueHandler i INFO) r =
     (INFO \<le> levelno r \<and> \<not> under_LiteLLM (name r))"
  by (auto simp: reaches_queue_def isEnabledFor_def getEffectiveLevel_def on_mount_logging
      handler_level_def)

lemma under_LiteLLM_framework_log:
  "under_LiteLLM (name r) \<Longrightarrow> framework_log r"
  by (auto simp: under_LiteLLM_def framework_log_def startswith_def prefix_def)

lemma session_queue:
  "pushed (snd (AdenTUI_on_mount app lg)) (fst (AdenTUI_on_mount app lg)) rs =
     (fst (AdenTUI_on_mount app lg))\<lparr>log_queue := Some ((Queue 0)\<lparr>items :=
        filter (\<lambda>r. INFO \<le> levelno r \<and> \<not> under_LiteLLM (name r)) rs\<rparr>)\<rparr>"
proof -
  let ?app1 = "fst (AdenTUI_on_mount app lg)"
  let ?lg1 = "snd (AdenTUI_on_mount app lg)"
  let ?h = "QueueHandler (handlers_created lg) INFO"
  have "pushed ?lg1 ?app1 rs =
      ?app1\<lparr>log_queue := Some ((Queue 0)\<lparr>items := items (Queue 0) @
         filter (reaches_queue ?lg1 ?h) rs\<rparr>)\<rparr>"
    by (rule pushed_unbounded [where i = "handlers_created lg" and lvl = INFO])
       (simp_all add: on_mount_app on_mount_logging Queue_def)
  moreover have "reaches_queue ?lg1 ?h =
      (\<lambda>r. INFO \<le> levelno r \<and> \<not> under_LiteLLM (name r))"
    by (rule ext) (rule reaches_queue_session)
  ultimately show ?thesis by (simp add: Queue_def)
qed

text \<open>A session: records are pushed, then one poll drains.\<close>

lemma session_drain:
  "main_log (log_pane (poll_logs
      (pushed (snd (AdenTUI_on_mount app lg)) (fst (AdenTUI_on_mount app lg)) rs))) =
   main_log (log_pane app) @
     (if is_mounted (log_pane app) \<and> log_is_mounted (log_pane app)
      then map message (filter (\<lambda>r. INFO \<le> levelno r \<and> \<not> framework_log r) rs)
      else [])"
proof -
  let ?app1 = "fst (AdenTUI_on_mount app lg)"
  let ?q = "(Queue 0)\<lparr>items :=
        filter (\<lambda>r. INFO \<le> levelno r \<and> \<not> under_LiteLLM (name r)) rs\<rparr>"
  have f: "filter (\<lambda>r. INFO \<le> levelno r \<and> \<not> under_LiteLLM (name r) \<and> \<not> framework_log r) rs
      = filter (\<lambda>r. INFO \<le> levelno r \<and> \<not> framework_log r) rs"
    using under_LiteLLM_framework_log by (intro filter_cong) auto
  have ready: "is_ready (?app1\<lparr>log_queue := Some ?q\<rparr>)"
    "log_queue (?app1\<lparr>log_queue := Some ?q\<rparr>) = Some ?q"
    by (simp_all add: on_mount_app)
  show ?thesis
    unfolding session_queue poll_logs_result [OF ready]
    by (simp add: f on_mount_app)
qed

text \<open>
  Two applications in one process: once the second is mounted, the first one's handler
  is off the root logger, and no log call reaches the first one's queue.
\<close>

lemma second_session_takes_over:
  "Logger_log (snd (AdenTUI_on_mount b (snd (AdenTUI_on_mount a lg))))
     (fst (AdenTUI_on_mount a lg)) r = fst (AdenTUI_on_mount a lg)"
  by (simp add: Logger_log_def callHandlers_def handle_by_def on_mount_app on_mount_logging)

subsection \<open>The claims about the relay\<close>

text \<open>
  Claim C7, as the code has it. The queue of the relay has no bound and drops nothing:
  \<open>_setup_logging_queue\<close> creates it with \<open>queue.Queue()\<close>, which is never full. For
  every sequence of log calls made in a session, however long, the queue holds every
  record at level \<open>INFO\<close> or above that is not made under the logger \<open>LiteLLM\<close>, in the
  order of the calls; none is dropped for being the oldest. One poll then empties the
  queue and, when the log pane is mounted, writes the messages of those queued records
  whose logger name has none of the framework prefixes, in the same order; when the
  pane is not mounted the polled records are written nowhere.
\<close>

theorem log_queue_keeps_every_record:
  "log_queue (fst (AdenTUI_on_mount app lg)) = Some (Queue 0) \<and>
   \<not> full ((Queue 0)\<lparr>items := rs\<rparr>) \<and>
   log_queue (pushed (snd (AdenTUI_on_mount app lg)) (fst (AdenTUI_on_mount app lg)) rs) =
     Some ((Queue 0)\<lparr>items :=
        filter (\<lambda>r. INFO \<le> levelno r \<and> \<not> under_LiteLLM (name r)) rs\<rparr>) \<and>
   log_queue (poll_logs
      (pushed (snd (AdenTUI_on_mount app lg)) (fst (AdenTUI_on_mount app lg)) rs)) =
     Some (Queue 0) \<and>
   main_log (log_pane (poll_logs
      (pushed (snd (AdenTUI_on_mount app lg)) (fst (AdenTUI_on_mount app lg)) rs))) =
     main_log (log_pane app) @
       (if is_mounted (log_pane app) \<and> log_is_mounted (log_pane app)
        then map message (filter (\<lambda>r. INFO \<le> levelno r \<and> \<not> framework_log r) rs)
        else [])"
proof -
  let ?app1 = "fst (AdenTUI_on_mount app lg)"
  let ?q = "(Queue 0)\<lparr>items :=
        filter (\<lambda>r. INFO \<le> levelno r \<and> \<not> under_LiteLLM (name r)) rs\<rparr>"
  have ready: "is_ready (?app1\<lparr>log_queue := Some ?q\<rparr>)"
    "log_queue (?app1\<lparr>log_queue := Some ?q\<rparr>) = Some ?q"
    by (simp_all add: on_mount_app)
  have emptied: "log_queue (poll_logs
      (pushed (snd (AdenTUI_on_mount app lg)) (fst (AdenTUI_on_mount app lg)) rs)) =
     Some (Queue 0)"
    unfolding session_queue poll_logs_result [OF ready] by (simp add: Queue_def)
  have created: "log_queue (fst (AdenTUI_on_mount app lg)) = Some (Queue 0)"
    by (simp add: on_mount_app)
  have never_full: "\<not> full ((Queue 0)\<lparr>items := rs\<rparr>)"
    by (simp add: full_def Queue_def)
  have queued: "log_queue
      (pushed (snd (AdenTUI_on_mount app lg)) (fst (AdenTUI_on_mount app lg)) rs) = Some ?q"
    unfolding session_queue by simp
  show ?thesis
    using created never_full queued emptied session_drain [of app lg rs] by blast
qed

text \<open>
  The theorem on four log calls: the one below \<open>INFO\<close> does not reach the queue, the
  one of \<open>textual.app\<close> is queued and left out by the poll, the other two are written
  in their order.
\<close>

theorem log_queue_keeps_every_record_witness:
  "log_queue (pushed (snd (AdenTUI_on_mount demo_app demo_logging))
         (fst (AdenTUI_on_mount demo_app demo_logging))
         [\<lparr>name = ''agent'', levelno = 20, message = ''one''\<rparr>,
          \<lparr>name = ''textual.app'', levelno = 20, message = ''two''\<rparr>,
          \<lparr>name = ''agent'', levelno = 10, message = ''three''\<rparr>,
          \<lparr>name = ''agent.node'', levelno = 40, message = ''four''\<rparr>])
   = Some \<lparr>maxsize = 0, items =
         [\<lparr>name = ''agent'', levelno = 20, message = ''one''\<rparr>,
          \<lparr>name = ''textual.app'', levelno = 20, message = ''two''\<rparr>,
          \<lparr>name = ''agent.node'', levelno = 40, message = ''four''\<rparr>]\<rparr> \<and>
   main_log (log_pane (poll_logs
      (pushed (snd (AdenTUI_on_mount demo_app demo_logging))
         (fst (AdenTUI_on_mount demo_app demo_logging))
         [\<lparr>name = ''agent'', levelno = 20, message = ''one''\<rparr>,
          \<lparr>name = ''textual.app'', levelno = 20, message = ''two''\<rparr>,
          \<lparr>name = ''agent'', levelno = 10, message = ''three''\<rparr>,
          \<lparr>name = ''agent.node'', levelno = 40, message = ''four''\<rparr>])))
   = [''one'', ''four'']"
proof -
  have m: "is_mounted (log_pane demo_app)" "log_is_mounted (log_pane demo_app)"
    "main_log (log_pane demo_app) = []"
    by (simp_all add: demo_app_def)
  show ?thesis
    using log_queue_keeps_every_record [of demo_app demo_logging
        "[\<lparr>name = ''agent'', levelno = 20, message = ''one''\<rparr>,
          \<lparr>name = ''textual.app'', levelno = 20, message = ''two''\<rparr>,
          \<lparr>name = ''agent'', levelno = 10, message = ''three''\<rparr>,
          \<lparr>name = ''agent.node'', levelno = 40, message = ''four''\<rparr>]"] m
    by (simp add: framework_log_def startswith_def under_LiteLLM_def INFO_def Queue_def)
qed

text \<open>
  Claim C7 as the specification states it fails: there is no bound on what one poll
  drains. Whatever the bound, one record more than the bound is pushed and drained.
\<close>

theorem no_bound_on_drained_records_counterexample:
  "\<not> (\<exists>bound. \<forall>rs.
        length (main_log (log_pane (poll_logs
          (pushed (snd (AdenTUI_on_mount demo_app demo_logging))
             (fst (AdenTUI_on_mount demo_app demo_logging)) rs)))) \<le> bound)"
proof
  assume "\<exists>bound. \<forall>rs.
        length (main_log (log_pane (poll_logs
          (pushed (snd (AdenTUI_on_mount demo_app demo_logging))
             (fst (AdenTUI_on_mount demo_app demo_logging)) rs)))) \<le> bound"
  then obtain bound where b: "\<forall>rs.
        length (main_log (log_pane (poll_logs
          (pushed (snd (AdenTUI_on_mount demo_app demo_logging))
             (fst (AdenTUI_on_mount demo_app demo_logging)) rs)))) \<le> bound"
    by blast
  let ?r = "\<lparr>name = ''agent'', levelno = 20, message = ''m''\<rparr>"
  have m: "is_mounted (log_pane demo_app) \<and> log_is_mounted (log_pane demo_app)"
    by (simp add: demo_app_def)
  have k: "INFO \<le> levelno ?r \<and> \<not> framework_log ?r"
    by (simp add: framework_log_def startswith_def INFO_def)
  have "length (main_log (log_pane (poll_logs
          (pushed (snd (AdenTUI_on_mount demo_app demo_logging))
             (fst (AdenTUI_on_mount demo_app demo_logging)) (replicate (Suc bound) ?r)))))
        = Suc bound"
  proof -
    have f: "filter (\<lambda>r. INFO \<le> levelno r \<and> \<not> framework_log r) (replicate (Suc bound) ?r)
        = replicate (Suc bound) ?r"
      using k by (intro filter_True) simp
    have e: "main_log (log_pane demo_app) = []"
      by (simp add: demo_app_def)
    show ?thesis
      unfolding session_drain f e using m by simp
  qed
  then show False using b by (metis Suc_n_not_le_n)
qed

text \<open>
  Claim C8, as the code has it. Mounting removes every handler the root logger had and
  installs the queue handler alone; unmounting removes the queue handler and restores
  nothing. After a session the root logger has no handler, and the levels the session
  set remain: the handlers are as before only when there were none.
\<close>

theorem stop_restores_no_handler:
  "root_handlers (snd (AdenTUI_on_mount app lg)) = [QueueHandler (handlers_created lg) INFO] \<and>
   snd (start_then_stop app lg) =
     \<lparr>root_handlers = [], root_level = INFO, litellm_level = CRITICAL,
      litellm_propagate = False, handlers_created = Suc (handlers_created lg)\<rparr> \<and>
   (root_handlers (snd (start_then_stop app lg)) = root_handlers lg
      \<longleftrightarrow> root_handlers lg = [])"
  by (auto simp: on_mount_logging start_then_stop_logging)

text \<open>The theorem on a configuration with one handler and the level 30.\<close>

theorem stop_restores_no_handler_witness:
  "root_handlers (snd (start_then_stop demo_app demo_logging)) = [] \<and>
   root_handlers demo_logging = [OtherHandler 0] \<and>
   root_level (snd (start_then_stop demo_app demo_logging)) = 20"
  using stop_restores_no_handler [of demo_app demo_logging]
  by (simp add: demo_logging_def INFO_def)

text \<open>
  Claim C8 as the specification states it fails: the handler installed before the
  session is gone after it.
\<close>

theorem start_stop_round_trip_counterexample:
  "root_handlers demo_logging = [OtherHandler 0] \<and>
   root_handlers (snd (start_then_stop demo_app demo_logging)) = [] \<and>
   snd (start_then_stop demo_app demo_logging) \<noteq> demo_logging"
  by (simp add: start_then_stop_logging demo_logging_def)

text \<open>
  Claim C9, as the code has it. One poll of a ready application empties the queue and,
  when the log pane is mounted, writes the messages of the queued records in the order
  they were queued, leaving out those whose logger name starts with one of the
  framework prefixes; when the pane is not mounted the polled records are written
  nowhere, and a poll of an application that is not ready does nothing. A log call
  whose record reaches the application's handler is put at the end of the queue
  whatever its logger name, and such a record is left out only when drained. Not every
  record with a framework prefix gets that far: in a session the records made under
  the logger \<open>LiteLLM\<close> are stopped before the queue, since the setup clears that
  logger's propagation flag; the test at the push is the level \<open>INFO\<close> and not being
  under \<open>LiteLLM\<close>.
\<close>

theorem poll_logs_drains_fifo_and_filters_at_drain:
  "(is_ready app \<and> log_queue app = Some q \<longrightarrow>
      log_queue (poll_logs app) = Some (q\<lparr>items := []\<rparr>) \<and>
      main_log (log_pane (poll_logs app)) =
        main_log (log_pane app) @
          (if is_mounted (log_pane app) \<and> log_is_mounted (log_pane app)
           then map message (filter (\<lambda>r. \<not> framework_log r) (items q))
           else [])) \<and>
   (\<not> is_ready app \<longrightarrow> poll_logs app = app) \<and>
   (queue_handler app = Some (QueueHandler i lvl) \<and>
    root_handlers lg = [QueueHandler i lvl] \<and> log_queue app = Some q \<and> \<not> full q \<longrightarrow>
      log_queue (Logger_log lg app r) =
        Some (if reaches_queue lg (QueueHandler i lvl) r then q\<lparr>items := items q @ [r]\<rparr>
              else q)) \<and>
   reaches_queue (snd (AdenTUI_on_mount app' lg')) (QueueHandler i INFO) r =
     (INFO \<le> levelno r \<and> \<not> under_LiteLLM (name r))"
proof -
  have drain: "log_queue (poll_logs app) = Some (q\<lparr>items := []\<rparr>) \<and>
      main_log (log_pane (poll_logs app)) =
        main_log (log_pane app) @
          (if is_mounted (log_pane app) \<and> log_is_mounted (log_pane app)
           then map message (filter (\<lambda>r. \<not> framework_log r) (items q))
           else [])"
    if "is_ready app" and "log_queue app = Some q"
    unfolding poll_logs_result [OF that] by simp
  have idle: "poll_logs app = app" if "\<not> is_ready app"
    using that by (simp add: poll_logs_def)
  have push: "log_queue (Logger_log lg app r) =
        Some (if reaches_queue lg (QueueHandler i lvl) r then q\<lparr>items := items q @ [r]\<rparr>
              else q)"
    if "queue_handler app = Some (QueueHandler i lvl)"
      and "root_handlers lg = [QueueHandler i lvl]"
      and "log_queue app = Some q" and "\<not> full q"
    unfolding Logger_log_single_handler [OF that(1) refl that(2,3,4)]
    using that(3) by simp
  show ?thesis
    using drain idle push reaches_queue_session [of app' lg' i r] by blast
qed

text \<open>
  The theorem in a mounted session: a record of \<open>litellm.utils\<close> is put on the queue
  by the log call, and a poll over three queued records leaves it out and keeps the
  order of the other two.
\<close>

theorem poll_logs_drains_fifo_and_filters_at_drain_witness:
  "log_queue (Logger_log (snd (AdenTUI_on_mount demo_app demo_logging))
      (fst (AdenTUI_on_mount demo_app demo_logging))
      \<lparr>name = ''litellm.utils'', levelno = 20, message = ''noise''\<rparr>)
    = Some \<lparr>maxsize = 0,
        items = [\<lparr>name = ''litellm.utils'', levelno = 20, message = ''noise''\<rparr>]\<rparr> \<and>
   main_log (log_pane (poll_logs
      ((fst (AdenTUI_on_mount demo_app demo_logging))
         \<lparr>log_queue := Some \<lparr>maxsize = 0, items =
            [\<lparr>name = ''agent'', levelno = 20, message = ''first''\<rparr>,
             \<lparr>name = ''litellm.utils'', levelno = 20, message = ''noise''\<rparr>,
             \<lparr>name = ''agent'', levelno = 30, message = ''second''\<rparr>]\<rparr>\<rparr>)))
    = [''first'', ''second'']"
proof -
  let ?app1 = "fst (AdenTUI_on_mount demo_app demo_logging)"
  let ?lg1 = "snd (AdenTUI_on_mount demo_app demo_logging)"
  let ?n = "\<lparr>name = ''litellm.utils'', levelno = 20, message = ''noise''\<rparr>"
  let ?q = "\<lparr>maxsize = 0, items =
            [\<lparr>name = ''agent'', levelno = 20, message = ''first''\<rparr>, ?n,
             \<lparr>name = ''agent'', levelno = 30, message = ''second''\<rparr>]\<rparr>"
  have a: "queue_handler ?app1 = Some (QueueHandler 0 INFO)"
    "root_handlers ?lg1 = [QueueHandler 0 INFO]" "log_queue ?app1 = Some (Queue 0)"
    "\<not> full (Queue 0)"
    by (simp_all add: on_mount_app on_mount_logging demo_logging_def full_def Queue_def)
  have b: "is_ready (?app1\<lparr>log_queue := Some ?q\<rparr>)"
    "log_queue (?app1\<lparr>log_queue := Some ?q\<rparr>) = Some ?q"
    "is_mounted (log_pane (?app1\<lparr>log_queue := Some ?q\<rparr>))"
    "log_is_mounted (log_pane (?app1\<lparr>log_queue := Some ?q\<rparr>))"
    "main_log (log_pane (?app1\<lparr>log_queue := Some ?q\<rparr>)) = []"
    by (simp_all add: on_mount_app demo_app_def)
  have c: "INFO \<le> levelno ?n \<and> \<not> under_LiteLLM (name ?n)"
    by (simp add: INFO_def under_LiteLLM_def)
  show ?thesis
    using
      poll_logs_drains_fifo_and_filters_at_drain
        [of ?app1 "Queue 0" 0 INFO ?lg1 ?n demo_app demo_logging]
      poll_logs_drains_fifo_and_filters_at_drain
        [of "?app1\<lparr>log_queue := Some ?q\<rparr>" ?q 0 INFO ?lg1 ?n demo_app demo_logging]
      a b c
    by (simp add: Queue_def framework_log_def startswith_def)
qed

text \<open>
  Claim C9 as the specification states it fails twice. A record of the logger
  \<open>LiteLLM\<close> carries a framework prefix and meets every level, yet the log call in a
  session leaves the queue empty: it is dropped at the push. And with a log pane that
  is not mounted, a poll takes a queued record off the queue and writes it nowhere.
\<close>

theorem LiteLLM_record_dropped_at_push_counterexample:
  "framework_log \<lparr>name = ''LiteLLM'', levelno = 50, message = ''rate limit''\<rparr> \<and>
   log_queue (Logger_log (snd (AdenTUI_on_mount demo_app demo_logging))
      (fst (AdenTUI_on_mount demo_app demo_logging))
      \<lparr>name = ''LiteLLM'', levelno = 50, message = ''rate limit''\<rparr>)
    = Some \<lparr>maxsize = 0, items = []\<rparr> \<and>
   log_queue (poll_logs
      ((fst (AdenTUI_on_mount (AdenTUI_init demo_runtime) demo_logging))
         \<lparr>log_queue := Some \<lparr>maxsize = 0, items =
            [\<lparr>name = ''agent'', levelno = 20, message = ''first''\<rparr>]\<rparr>\<rparr>))
    = Some \<lparr>maxsize = 0, items = []\<rparr> \<and>
   main_log (log_pane (poll_logs
      ((fst (AdenTUI_on_mount (AdenTUI_init demo_runtime) demo_logging))
         \<lparr>log_queue := Some \<lparr>maxsize = 0, items =
            [\<lparr>name = ''agent'', levelno = 20, message = ''first''\<rparr>]\<rparr>\<rparr>)))
    = []"
  by (simp add: framework_log_def startswith_def Logger_log_def callHandlers_def
      under_LiteLLM_def on_mount_app on_mount_logging Queue_def poll_logs_def
      AdenTUI_init_def write_log_def)

section \<open>The hand-over of events to the graph view\<close>







end
